theory Spec2Isabelle
  imports Complex_Main "HOL-Library.AList"
begin

section \<open>Python values, exceptions and the HTTP transport\<close>

text \<open>
  The endpoint dictionaries come out of \<^verbatim>\<open>yaml.safe_load\<close>, so a field can hold any
  YAML value. The values that matter to \<^verbatim>\<open>health_check.py\<close> are \<^verbatim>\<open>None\<close>, a string,
  an integer and a string-to-string dictionary (the headers).
  A Python string is modelled by its UTF-8 encoding, a list of bytes.
\<close>

datatype pyval = PNone | PStr string | PInt int | PDict "(string \<times> string) list"

text \<open>
  Exceptions are values. \<open>RequestException\<close> stands for \<^verbatim>\<open>requests.RequestException\<close> and
  all its subclasses (connection errors, timeouts, invalid URLs, ...): the single
  \<^verbatim>\<open>except\<close> clause of \<^verbatim>\<open>send_request\<close> tests membership in that class and nothing else.
\<close>

datatype py_exception =
  RequestException | AttributeError | KeyError | ValueError | ZeroDivisionError | OtherException

datatype verb = GET | POST | PUT | DELETE | HEAD | OPTIONS | PATCH

record request =
  req_verb :: verb
  req_url :: pyval
  req_headers :: pyval
  req_data :: pyval
  req_timeout :: int

datatype transport_result = Response int | Raise py_exception

text \<open>
  What the outside world contributes to one probe: the first reading of \<^verbatim>\<open>time.time()\<close>
  (seconds), the answer of the session to the request it is handed (the status code of
  the response, or the exception raised by the call), and the second reading of
  \<^verbatim>\<open>time.time()\<close>. Floating-point seconds are idealised as reals.
\<close>

record probe_env =
  clock0 :: real
  respond :: "request \<Rightarrow> transport_result"
  clock1 :: real

section \<open>\<^verbatim>\<open>send_request\<close> and \<^verbatim>\<open>check_endpoint\<close>\<close>

definition upper_char :: "char \<Rightarrow> char" where
  "upper_char c =
     (case map_of (zip ''abcdefghijklmnopqrstuvwxyz'' ''ABCDEFGHIJKLMNOPQRSTUVWXYZ'') c of
        Some u \<Rightarrow> u
      | None \<Rightarrow> c)"

text \<open>
  \<^verbatim>\<open>str.upper()\<close> works on code points. Beyond the ASCII letters, ten code points have
  an upper case made of ASCII letters only; here they are, in UTF-8, with their upper
  case: U+00DF, U+0131, U+017F and U+FB00 to U+FB06. Every other code point outside
  ASCII is left as it is. Its upper case in Python keeps a character outside ASCII, so
  the result is a key of \<open>method_switcher\<close> in the model exactly when it is one in Python.
\<close>

definition special_upper :: "(string \<times> string) list" where
  "special_upper =
     [([CHR 0xC3, CHR 0x9F], ''SS''), ([CHR 0xC4, CHR 0xB1], ''I''),
      ([CHR 0xC5, CHR 0xBF], ''S''),
      ([CHR 0xEF, CHR 0xAC, CHR 0x80], ''FF''), ([CHR 0xEF, CHR 0xAC, CHR 0x81], ''FI''),
      ([CHR 0xEF, CHR 0xAC, CHR 0x82], ''FL''), ([CHR 0xEF, CHR 0xAC, CHR 0x83], ''FFI''),
      ([CHR 0xEF, CHR 0xAC, CHR 0x84], ''FFL''), ([CHR 0xEF, CHR 0xAC, CHR 0x85], ''ST''),
      ([CHR 0xEF, CHR 0xAC, CHR 0x86], ''ST'')]"

text \<open>
  \<open>upper_from k s\<close> skips the \<open>k\<close> bytes that remain of a code point already translated,
  then translates \<open>s\<close> code point by code point.
\<close>

fun upper_from :: "nat \<Rightarrow> string \<Rightarrow> string" where
  "upper_from k [] = []"
| "upper_from (Suc k) (c # cs) = upper_from k cs"
| "upper_from 0 (c # cs) =
     (case find (\<lambda>(bs, u). take (length bs) (c # cs) = bs) special_upper of
        Some (bs, u) \<Rightarrow> u @ upper_from (length bs - 1) cs
      | None \<Rightarrow> upper_char c # upper_from 0 cs)"

definition upper :: "string \<Rightarrow> string" where
  "upper s = upper_from 0 s"

text \<open>\<^verbatim>\<open>method.upper()\<close>: only a string has the attribute.\<close>

definition py_upper :: "pyval \<Rightarrow> py_exception + string" where
  "py_upper v = (case v of PStr s \<Rightarrow> Inr (upper s) | _ \<Rightarrow> Inl AttributeError)"

definition method_switcher :: "(string \<times> verb) list" where
  "method_switcher =
     [(''GET'', GET), (''POST'', POST), (''PUT'', PUT), (''DELETE'', DELETE),
      (''HEAD'', HEAD), (''OPTIONS'', OPTIONS), (''PATCH'', PATCH)]"

text \<open>\<^verbatim>\<open>request_function = method_switcher.get(method.upper(), session.get)\<close>\<close>

definition request_function :: "pyval \<Rightarrow> py_exception + verb" where
  "request_function method =
     (case py_upper method of
        Inl e \<Rightarrow> Inl e
      | Inr m \<Rightarrow> Inr (case map_of method_switcher m of Some f \<Rightarrow> f | None \<Rightarrow> GET))"

text \<open>
  The handler \<^verbatim>\<open>except requests.RequestException as e: return 'DOWN'\<close>; an exception
  of any other class leaves the function.
\<close>

definition except_RequestException :: "py_exception \<Rightarrow> py_exception + string" where
  "except_RequestException e = (if e = RequestException then Inr ''DOWN'' else Inl e)"

definition latency :: "probe_env \<Rightarrow> real" where
  "latency env = (clock1 env - clock0 env) * 1000"

definition send_request ::
  "probe_env \<Rightarrow> pyval \<Rightarrow> pyval \<Rightarrow> pyval \<Rightarrow> pyval \<Rightarrow> py_exception + string" where
  "send_request env method url headers body =
     (case request_function method of
        Inl e \<Rightarrow> except_RequestException e
      | Inr f \<Rightarrow>
          (case respond env \<lparr>req_verb = f, req_url = url, req_headers = headers,
                             req_data = body, req_timeout = 1\<rparr> of
             Raise e \<Rightarrow> except_RequestException e
           | Response status_code \<Rightarrow>
               if 200 \<le> status_code \<and> status_code < 300
               then (if latency env < 500 then Inr ''UP'' else Inr ''DOWN'')
               else Inr ''DOWN''))"

text \<open>An endpoint is a dictionary; \<^verbatim>\<open>endpoint.get(k, d)\<close> and \<^verbatim>\<open>endpoint[k]\<close>.\<close>

type_synonym endpoint = "(string \<times> pyval) list"

definition dict_get :: "endpoint \<Rightarrow> string \<Rightarrow> pyval \<Rightarrow> pyval" where
  "dict_get d k dflt = (case map_of d k of Some v \<Rightarrow> v | None \<Rightarrow> dflt)"

definition dict_item :: "endpoint \<Rightarrow> string \<Rightarrow> py_exception + pyval" where
  "dict_item d k = (case map_of d k of Some v \<Rightarrow> Inr v | None \<Rightarrow> Inl KeyError)"

definition check_endpoint :: "probe_env \<Rightarrow> endpoint \<Rightarrow> py_exception + string" where
  "check_endpoint env endpoint =
     (let url = dict_get endpoint ''url'' PNone;
          method = dict_get endpoint ''method'' (PStr ''GET'');
          headers = dict_get endpoint ''headers'' (PDict []);
          body = dict_get endpoint ''body'' PNone
      in send_request env method url headers body)"

section \<open>The aggregation state of \<^verbatim>\<open>monitor_endpoints\<close>\<close>

text \<open>
  \<^verbatim>\<open>domain_stats\<close> is a \<^verbatim>\<open>defaultdict\<close> of \<^verbatim>\<open>{'up': 0, 'down': 0}\<close> and \<^verbatim>\<open>domain_totals\<close> a
  \<^verbatim>\<open>defaultdict(int)\<close>. A Python dictionary iterates in insertion order, so both are
  association lists: a new key goes to the end, an existing key keeps its place.
  Python integers are unbounded: \<open>int\<close>.
\<close>

record stats =
  up :: int
  down :: int

record aggregator =
  domain_stats :: "(string \<times> stats) list"
  domain_totals :: "(string \<times> int) list"

definition initial :: aggregator where
  "initial = \<lparr>domain_stats = [], domain_totals = []\<rparr>"

text \<open>
  \<^verbatim>\<open>d[k]\<close> on a \<^verbatim>\<open>defaultdict\<close>: a missing key is first inserted with the default value.
  The read returns the value and the dictionary as it is afterwards.
\<close>

definition defaultdict_getitem ::
  "'v \<Rightarrow> string \<Rightarrow> (string \<times> 'v) list \<Rightarrow> 'v \<times> (string \<times> 'v) list" where
  "defaultdict_getitem dflt k d =
     (case map_of d k of Some v \<Rightarrow> (v, d) | None \<Rightarrow> (dflt, d @ [(k, dflt)]))"

text \<open>
  Lines 106 to 110, the body of the \<^verbatim>\<open>for\<close> loop after the probe:
  \<^verbatim>\<open>domain_totals[domain] += 1\<close>, then \<^verbatim>\<open>domain_stats[domain]['up'] += 1\<close> when the status
  is \<^verbatim>\<open>'UP'\<close> and \<^verbatim>\<open>domain_stats[domain]['down'] += 1\<close> otherwise.
\<close>

definition record_outcome :: "string \<Rightarrow> string \<Rightarrow> aggregator \<Rightarrow> aggregator" where
  "record_outcome domain status s =
     (let (t, totals1) = defaultdict_getitem 0 domain (domain_totals s);
          totals2 = AList.update domain (t + 1) totals1;
          (st, stats1) = defaultdict_getitem \<lparr>up = 0, down = 0\<rparr> domain (domain_stats s);
          stats2 = AList.update domain
                     (if status = ''UP'' then st\<lparr>up := up st + 1\<rparr>
                      else st\<lparr>down := down st + 1\<rparr>) stats1
      in \<lparr>domain_stats = stats2, domain_totals = totals2\<rparr>)"

text \<open>
  Lines 102 to 104: \<^verbatim>\<open>endpoint['url']\<close>, the probe, and \<^verbatim>\<open>urlparse(url).netloc\<close>.
  \<^verbatim>\<open>urllib.parse\<close> is not part of the repository, so the function that extracts
  the network location is a parameter \<open>netloc\<close> of the model; it may raise.
\<close>

definition probe_endpoint ::
  "(pyval \<Rightarrow> py_exception + string) \<Rightarrow> probe_env \<Rightarrow> endpoint \<Rightarrow>
   py_exception + (string \<times> string)" where
  "probe_endpoint netloc env endpoint =
     (case dict_item endpoint ''url'' of
        Inl e \<Rightarrow> Inl e
      | Inr url \<Rightarrow>
          (case check_endpoint env endpoint of
             Inl e \<Rightarrow> Inl e
           | Inr status \<Rightarrow>
               (case netloc url of
                  Inl e \<Rightarrow> Inl e
                | Inr domain \<Rightarrow> Inr (domain, status))))"

text \<open>
  \<^verbatim>\<open>for endpoint in endpoints\<close>: the environment of the probe of the \<open>i\<close>-th endpoint
  is \<open>envs i\<close>. An exception that leaves a probe leaves the loop.
\<close>

fun for_endpoints ::
  "(pyval \<Rightarrow> py_exception + string) \<Rightarrow> (nat \<Rightarrow> probe_env) \<Rightarrow> nat \<Rightarrow> endpoint list \<Rightarrow>
   aggregator \<Rightarrow> py_exception + aggregator" where
  "for_endpoints netloc envs i [] s = Inr s"
| "for_endpoints netloc envs i (endpoint # rest) s =
     (case probe_endpoint netloc (envs i) endpoint of
        Inl e \<Rightarrow> Inl e
      | Inr (domain, status) \<Rightarrow>
          for_endpoints netloc envs (Suc i) rest (record_outcome domain status s))"

section \<open>The availability report\<close>

definition py_truediv :: "int \<Rightarrow> int \<Rightarrow> py_exception + real" where
  "py_truediv a b = (if b = 0 then Inl ZeroDivisionError else Inr (of_int a / of_int b))"

text \<open>Python's \<^verbatim>\<open>round\<close> with one argument: to the nearest integer, a tie to the even one.\<close>

definition py_round :: "real \<Rightarrow> int" where
  "py_round x =
     (let f = \<lfloor>x\<rfloor>; d = x - of_int f
      in if d < 1 / 2 then f else if 1 / 2 < d then f + 1
         else if even f then f else f + 1)"

function str_nat :: "nat \<Rightarrow> string" where
  "str_nat n =
     (if n < 10 then [''0123456789'' ! n]
      else str_nat (n div 10) @ [''0123456789'' ! (n mod 10)])"
  by pat_completeness auto
termination
  by (relation "measure id") auto

declare str_nat.simps [simp del]

definition str_int :: "int \<Rightarrow> string" where
  "str_int i = (if i < 0 then CHR ''-'' # str_nat (nat (- i)) else str_nat (nat i))"

text \<open>\<^verbatim>\<open>f"{domain} has {round(availability)}% availability percentage"\<close>\<close>

definition format_line :: "string \<Rightarrow> int \<Rightarrow> string" where
  "format_line domain percent =
     domain @ '' has '' @ str_int percent @ ''% availability percentage''"

text \<open>
  Lines 113 to 116. The loop runs over the items of \<^verbatim>\<open>domain_stats\<close>; reading
  \<^verbatim>\<open>domain_totals[domain]\<close> is a \<^verbatim>\<open>defaultdict\<close> read, so \<^verbatim>\<open>domain_totals\<close> is threaded
  through. The result is the dictionary afterwards and the lines printed, in order.
\<close>

fun log_availability ::
  "(string \<times> stats) list \<Rightarrow> (string \<times> int) list \<Rightarrow>
   py_exception + ((string \<times> int) list \<times> string list)" where
  "log_availability [] totals = Inr (totals, [])"
| "log_availability ((domain, st) # rest) totals =
     (let (total_count, totals1) = defaultdict_getitem 0 domain totals
      in case (if total_count \<noteq> 0 then py_truediv (100 * up st) total_count else Inr 0) of
           Inl e \<Rightarrow> Inl e
         | Inr availability \<Rightarrow>
             (case log_availability rest totals1 of
                Inl e \<Rightarrow> Inl e
              | Inr (totals2, printed) \<Rightarrow>
                  Inr (totals2, format_line domain (py_round availability) # printed)))"

definition report :: "aggregator \<Rightarrow> py_exception + (aggregator \<times> string list)" where
  "report s =
     (case log_availability (domain_stats s) (domain_totals s) of
        Inl e \<Rightarrow> Inl e
      | Inr (totals, printed) \<Rightarrow> Inr (s\<lparr>domain_totals := totals\<rparr>, printed))"

section \<open>The monitor loop\<close>

text \<open>
  One pass through the body of \<^verbatim>\<open>while True\<close>: probe and record every endpoint, print
  the report, sleep. \<^verbatim>\<open>time.sleep(15)\<close> touches nothing that the model holds.
\<close>

definition cycle ::
  "(pyval \<Rightarrow> py_exception + string) \<Rightarrow> (nat \<Rightarrow> probe_env) \<Rightarrow> endpoint list \<Rightarrow>
   aggregator \<Rightarrow> py_exception + (aggregator \<times> string list)" where
  "cycle netloc envs endpoints s =
     (case for_endpoints netloc envs 0 endpoints s of
        Inl e \<Rightarrow> Inl e
      | Inr s1 \<Rightarrow> report s1)"

text \<open>
  The loop never returns. \<open>monitor_endpoints netloc world endpoints n\<close> is the program
  after the first \<open>n\<close> passes: the aggregation state and everything printed so far, or the
  exception that ended the program. \<open>world c i\<close> is the environment of the probe of
  endpoint \<open>i\<close> in pass \<open>c\<close>. A \<^verbatim>\<open>KeyboardInterrupt\<close> comes from outside and only cuts a
  run short; it is not modelled.
\<close>

fun monitor_endpoints ::
  "(pyval \<Rightarrow> py_exception + string) \<Rightarrow> (nat \<Rightarrow> nat \<Rightarrow> probe_env) \<Rightarrow> endpoint list \<Rightarrow>
   nat \<Rightarrow> py_exception + (aggregator \<times> string list)" where
  "monitor_endpoints netloc world endpoints 0 = Inr (initial, [])"
| "monitor_endpoints netloc world endpoints (Suc n) =
     (case monitor_endpoints netloc world endpoints n of
        Inl e \<Rightarrow> Inl e
      | Inr (s, out) \<Rightarrow>
          (case cycle netloc (world n) endpoints s of
             Inl e \<Rightarrow> Inl e
           | Inr (s1, printed) \<Rightarrow> Inr (s1, out @ printed)))"

section \<open>Reading the counters\<close>

definition up_count :: "aggregator \<Rightarrow> string \<Rightarrow> int" where
  "up_count s d = (case map_of (domain_stats s) d of Some st \<Rightarrow> up st | None \<Rightarrow> 0)"

definition down_count :: "aggregator \<Rightarrow> string \<Rightarrow> int" where
  "down_count s d = (case map_of (domain_stats s) d of Some st \<Rightarrow> down st | None \<Rightarrow> 0)"

definition lookup0 :: "(string \<times> int) list \<Rightarrow> string \<Rightarrow> int" where
  "lookup0 totals d = (case map_of totals d of Some t \<Rightarrow> t | None \<Rightarrow> 0)"

definition total_count :: "aggregator \<Rightarrow> string \<Rightarrow> int" where
  "total_count s d = lookup0 (domain_totals s) d"

text \<open>
  The state after a sequence of recorded probes, each a domain key and a status: from any
  state, and from the empty dictionaries that \<^verbatim>\<open>monitor_endpoints\<close> starts with. The
  states \<open>recorded ps\<close> are the reachable ones.
\<close>

definition record_all :: "aggregator \<Rightarrow> (string \<times> string) list \<Rightarrow> aggregator" where
  "record_all s ps = foldl (\<lambda>s (domain, status). record_outcome domain status s) s ps"

definition recorded :: "(string \<times> string) list \<Rightarrow> aggregator" where
  "recorded ps = record_all initial ps"

text \<open>The percentage printed for a domain, written as the specification writes it.\<close>

definition availability_percent :: "aggregator \<Rightarrow> string \<Rightarrow> int" where
  "availability_percent s d =
     (if total_count s d = 0 then 0
      else py_round (of_int (100 * up_count s d) / of_int (total_count s d)))"

text \<open>
  Modelled from the spec: \<^verbatim>\<open>urllib.parse.urlparse\<close> is a library function and not under
  \<^verbatim>\<open>src/\<close>. The specification calls its \<^verbatim>\<open>netloc\<close> the network-location component of
  the URL. The definitions follow the library's \<^verbatim>\<open>urlsplit\<close>: leading C0 control characters
  and spaces are stripped, tabs and line breaks are removed, a scheme (a letter, then
  letters, digits, \<^verbatim>\<open>+\<close>, \<^verbatim>\<open>-\<close> or \<^verbatim>\<open>.\<close>, up to the first colon) is split off, and if
  \<^verbatim>\<open>//\<close> follows, the network location is what stands between it and the next \<^verbatim>\<open>/\<close>,
  \<^verbatim>\<open>?\<close> or \<^verbatim>\<open>#\<close>; otherwise it is empty. One bracket without the other raises
  \<^verbatim>\<open>ValueError\<close>. A network location with both brackets (an IPv6 literal) or with a
  character outside ASCII is validated by the library and raises \<^verbatim>\<open>ValueError\<close> when the
  validation fails: that validation is the parameter \<open>accepted\<close>.
  For an argument that is not a string the library answers the empty bytes object
  when the argument is falsy and raises \<^verbatim>\<open>AttributeError\<close> otherwise. The keys of the model
  are strings, and the bytes object is the key \<^verbatim>\<open>b''\<close>, which is how the report prints it.
\<close>

definition ascii_lowercase :: string where
  "ascii_lowercase = ''abcdefghijklmnopqrstuvwxyz''"

definition ascii_uppercase :: string where
  "ascii_uppercase = ''ABCDEFGHIJKLMNOPQRSTUVWXYZ''"

definition scheme_char :: "char \<Rightarrow> bool" where
  "scheme_char c =
     (c \<in> set (''abcdefghijklmnopqrstuvwxyz'' @ ''ABCDEFGHIJKLMNOPQRSTUVWXYZ''
                 @ ''0123456789'' @ ''+-.''))"

definition c0_control_or_space :: "char \<Rightarrow> bool" where
  "c0_control_or_space c =
     (c \<in> set [CHR 0x00, CHR 0x01, CHR 0x02, CHR 0x03, CHR 0x04, CHR 0x05, CHR 0x06,
                CHR 0x07, CHR 0x08, CHR 0x09, CHR 0x0A, CHR 0x0B, CHR 0x0C, CHR 0x0D,
                CHR 0x0E, CHR 0x0F, CHR 0x10, CHR 0x11, CHR 0x12, CHR 0x13, CHR 0x14,
                CHR 0x15, CHR 0x16, CHR 0x17, CHR 0x18, CHR 0x19, CHR 0x1A, CHR 0x1B,
                CHR 0x1C, CHR 0x1D, CHR 0x1E, CHR 0x1F, CHR 0x20])"

definition unsafe_byte :: "char \<Rightarrow> bool" where
  "unsafe_byte c = (c \<in> set [CHR 0x09, CHR 0x0D, CHR 0x0A])"

definition netloc_end :: "char \<Rightarrow> bool" where
  "netloc_end c = (c \<in> set ''/?#'')"

definition is_ascii :: "char \<Rightarrow> bool" where
  "is_ascii c = (\<not> digit7 c)"

definition strip_scheme :: "string \<Rightarrow> string" where
  "strip_scheme url =
     (let pre = takeWhile (\<lambda>c. c \<noteq> CHR '':'') url
      in if pre \<noteq> [] \<and> length pre < length url
            \<and> hd url \<in> set (ascii_lowercase @ ascii_uppercase) \<and> list_all scheme_char pre
         then drop (Suc (length pre)) url else url)"

definition falsy :: "pyval \<Rightarrow> bool" where
  "falsy v = (v = PNone \<or> v = PInt 0 \<or> v = PDict [] \<or> v = PStr [])"

definition urlsplit_netloc :: "(string \<Rightarrow> bool) \<Rightarrow> pyval \<Rightarrow> py_exception + string" where
  "urlsplit_netloc accepted v =
     (case v of
        PStr url \<Rightarrow>
          (let url1 = dropWhile c0_control_or_space url;
               url2 = filter (\<lambda>c. \<not> unsafe_byte c) url1;
               url3 = strip_scheme url2
           in if take 2 url3 = ''//''
              then (let netloc = takeWhile (\<lambda>c. \<not> netloc_end c) (drop 2 url3)
                    in if (CHR ''['' \<in> set netloc) \<noteq> (CHR '']'' \<in> set netloc)
                       then Inl ValueError
                       else if (CHR ''['' \<in> set netloc \<or> \<not> list_all is_ascii netloc)
                               \<and> \<not> accepted netloc
                       then Inl ValueError
                       else Inr netloc)
              else Inr [])
      | _ \<Rightarrow> if falsy v then Inr [CHR ''b'', CHR 0x27, CHR 0x27] else Inl AttributeError)"

text \<open>
  The instance used in the examples. Their URLs have no bracket and no character
  outside ASCII, so the validation plays no part in them.
\<close>

definition urlparse_netloc :: "pyval \<Rightarrow> py_exception + string" where
  "urlparse_netloc = urlsplit_netloc (\<lambda>netloc. True)"



section \<open>Matching a method against the names of the request functions\<close>




section \<open>Example environments\<close>

text \<open>
  A response with status 200 after 50 ms, one with status 200 after 600 ms, one with
  status 404 after 50 ms, a refused connection, and a server that answers 200 to a
  \<^verbatim>\<open>GET\<close> and 405 to every other verb.
\<close>

definition fast_ok :: probe_env where
  "fast_ok = \<lparr>clock0 = 0, respond = (\<lambda>r. Response 200), clock1 = 1 / 20\<rparr>"

definition slow_ok :: probe_env where
  "slow_ok = \<lparr>clock0 = 0, respond = (\<lambda>r. Response 200), clock1 = 3 / 5\<rparr>"

definition not_found :: probe_env where
  "not_found = \<lparr>clock0 = 0, respond = (\<lambda>r. Response 404), clock1 = 1 / 20\<rparr>"

definition refused :: probe_env where
  "refused = \<lparr>clock0 = 0, respond = (\<lambda>r. Raise RequestException), clock1 = 1 / 20\<rparr>"


definition get_only :: probe_env where
  "get_only =
     \<lparr>clock0 = 0,
      respond = (\<lambda>r. if req_verb r = GET then Response 200 else Response 405),
      clock1 = 1 / 20\<rparr>"

section \<open>Recording an outcome\<close>

lemmas netloc_eval =
  urlparse_netloc_def urlsplit_netloc_def strip_scheme_def scheme_char_def
  c0_control_or_space_def unsafe_byte_def netloc_end_def is_ascii_def
  ascii_lowercase_def ascii_uppercase_def

lemma map_of_getitem:
  "map_of (snd (defaultdict_getitem dflt k d)) =
     (case map_of d k of Some v \<Rightarrow> map_of d | None \<Rightarrow> (map_of d)(k \<mapsto> dflt))"
  by (auto simp: defaultdict_getitem_def fun_eq_iff map_add_def split: option.splits)

lemma fst_getitem:
  "fst (defaultdict_getitem dflt k d) = (case map_of d k of Some v \<Rightarrow> v | None \<Rightarrow> dflt)"
  by (simp add: defaultdict_getitem_def split: option.splits)

lemma keys_getitem:
  "map fst (snd (defaultdict_getitem dflt k d)) =
     (if k \<in> set (map fst d) then map fst d else map fst d @ [k])"
  by (force simp: defaultdict_getitem_def map_of_eq_None_iff split: option.splits
      dest: map_of_SomeD)

lemma keys_getitem_update:
  "map fst (AList.update k v (snd (defaultdict_getitem dflt k d))) =
     (if k \<in> set (map fst d) then map fst d else map fst d @ [k])"
  by (simp add: AList.update_keys keys_getitem)

lemma domain_totals_record:
  "map_of (domain_totals (record_outcome domain status s)) =
     (map_of (domain_totals s))(domain \<mapsto>
        (case map_of (domain_totals s) domain of Some t \<Rightarrow> t | None \<Rightarrow> 0) + 1)"
  by (simp add: record_outcome_def split_def Let_def AList.update_conv' map_of_getitem fst_getitem
      split: option.splits)

lemma domain_stats_record:
  "map_of (domain_stats (record_outcome domain status s)) =
     (map_of (domain_stats s))(domain \<mapsto>
        (let st = (case map_of (domain_stats s) domain of Some st \<Rightarrow> st
                   | None \<Rightarrow> \<lparr>up = 0, down = 0\<rparr>)
         in if status = ''UP'' then st\<lparr>up := up st + 1\<rparr> else st\<lparr>down := down st + 1\<rparr>))"
  by (simp add: record_outcome_def split_def Let_def AList.update_conv' map_of_getitem fst_getitem
      split: option.splits)

lemma keys_totals_record:
  "map fst (domain_totals (record_outcome domain status s)) =
     (if domain \<in> set (map fst (domain_totals s)) then map fst (domain_totals s)
      else map fst (domain_totals s) @ [domain])"
  by (simp add: record_outcome_def split_def Let_def keys_getitem_update)

lemma keys_stats_record:
  "map fst (domain_stats (record_outcome domain status s)) =
     (if domain \<in> set (map fst (domain_stats s)) then map fst (domain_stats s)
      else map fst (domain_stats s) @ [domain])"
  by (simp add: record_outcome_def split_def Let_def keys_getitem_update)

lemma total_count_record:
  "total_count (record_outcome domain status s) d =
     total_count s d + (if d = domain then 1 else 0)"
  by (simp add: total_count_def lookup0_def domain_totals_record split: option.splits)

lemma up_count_record:
  "up_count (record_outcome domain status s) d =
     up_count s d + (if d = domain \<and> status = ''UP'' then 1 else 0)"
  by (simp add: up_count_def domain_stats_record Let_def split: option.splits)

lemma down_count_record:
  "down_count (record_outcome domain status s) d =
     down_count s d + (if d = domain \<and> status \<noteq> ''UP'' then 1 else 0)"
  by (simp add: down_count_def domain_stats_record Let_def split: option.splits)

lemma recorded_Nil: "recorded [] = initial"
  by (simp add: recorded_def record_all_def)

lemma recorded_snoc:
  "recorded (ps @ [(domain, status)]) = record_outcome domain status (recorded ps)"
  by (simp add: recorded_def record_all_def)

lemma counts_initial:
  "total_count initial d = 0" "up_count initial d = 0" "down_count initial d = 0"
  by (simp_all add: total_count_def lookup0_def up_count_def down_count_def initial_def)

lemma total_count_recorded:
  "total_count (recorded ps) d = int (length (filter (\<lambda>p. fst p = d) ps))"
proof (induction ps rule: rev_induct)
  case Nil
  show ?case by (simp add: recorded_Nil counts_initial)
next
  case (snoc p ps)
  obtain domain status where p: "p = (domain, status)" by (cases p)
  show ?case using snoc by (simp add: p recorded_snoc total_count_record)
qed

lemma up_count_recorded:
  "up_count (recorded ps) d = int (length (filter (\<lambda>p. fst p = d \<and> snd p = ''UP'') ps))"
proof (induction ps rule: rev_induct)
  case Nil
  show ?case by (simp add: recorded_Nil counts_initial)
next
  case (snoc p ps)
  obtain domain status where p: "p = (domain, status)" by (cases p)
  show ?case using snoc by (simp add: p recorded_snoc up_count_record)
qed

lemma down_count_recorded:
  "down_count (recorded ps) d = int (length (filter (\<lambda>p. fst p = d \<and> snd p \<noteq> ''UP'') ps))"
proof (induction ps rule: rev_induct)
  case Nil
  show ?case by (simp add: recorded_Nil counts_initial)
next
  case (snoc p ps)
  obtain domain status where p: "p = (domain, status)" by (cases p)
  show ?case using snoc by (simp add: p recorded_snoc down_count_record)
qed

lemma keys_stats_recorded:
  "set (map fst (domain_stats (recorded ps))) = fst ` set ps
   \<and> distinct (map fst (domain_stats (recorded ps)))
   \<and> map fst (domain_totals (recorded ps)) = map fst (domain_stats (recorded ps))"
proof (induction ps rule: rev_induct)
  case Nil
  show ?case by (simp add: recorded_Nil initial_def)
next
  case (snoc p ps)
  obtain domain status where p: "p = (domain, status)" by (cases p)
  show ?case using snoc
    by (auto simp: p recorded_snoc keys_stats_record keys_totals_record)
qed

section \<open>The report reads, and leaves the counters as they are\<close>

lemma lookup0_getitem:
  "lookup0 (snd (defaultdict_getitem 0 k totals)) = lookup0 totals"
  by (auto simp: lookup0_def fun_eq_iff map_of_getitem split: option.splits)

lemma getitem_present:
  "k \<in> set (map fst d) \<Longrightarrow> snd (defaultdict_getitem dflt k d) = d"
  by (auto simp: defaultdict_getitem_def map_of_eq_None_iff split: option.splits)

lemma log_availability_result:
  "\<exists>totals1.
     log_availability items totals =
       Inr (totals1,
            map (\<lambda>(d, st). format_line d
                   (if lookup0 totals d = 0 then 0
                    else py_round (of_int (100 * up st) / of_int (lookup0 totals d)))) items)
     \<and> lookup0 totals1 = lookup0 totals
     \<and> (set (map fst items) \<subseteq> set (map fst totals) \<longrightarrow> totals1 = totals)"
proof (induction items arbitrary: totals)
  case Nil
  show ?case by simp
next
  case (Cons item items)
  obtain d st where item: "item = (d, st)" by (cases item)
  let ?t1 = "snd (defaultdict_getitem 0 d totals)"
  have fst_eq: "fst (defaultdict_getitem 0 d totals) = lookup0 totals d"
    by (simp add: fst_getitem lookup0_def)
  have l1: "lookup0 ?t1 = lookup0 totals" by (rule lookup0_getitem)
  from Cons.IH [of ?t1] obtain totals1 where
    rest: "log_availability items ?t1 =
       Inr (totals1,
            map (\<lambda>(d, st). format_line d
                   (if lookup0 ?t1 d = 0 then 0
                    else py_round (of_int (100 * up st) / of_int (lookup0 ?t1 d)))) items)"
    and l2: "lookup0 totals1 = lookup0 ?t1"
    and same: "set (map fst items) \<subseteq> set (map fst ?t1) \<longrightarrow> totals1 = ?t1"
    by blast
  have keep: "set (map fst (item # items)) \<subseteq> set (map fst totals) \<longrightarrow> totals1 = totals"
    using same by (auto simp: item getitem_present)
  show ?case
    using rest l1 l2 keep
    by (cases "defaultdict_getitem 0 d totals")
       (use fst_eq in \<open>auto simp: item py_truediv_def py_round_def\<close>)
qed

lemma total_count_lookup0: "total_count s = lookup0 (domain_totals s)"
  by (simp add: total_count_def fun_eq_iff)

lemma report_result:
  "\<exists>s1.
     report s =
       Inr (s1,
            map (\<lambda>(d, st). format_line d
                   (if total_count s d = 0 then 0
                    else py_round (of_int (100 * up st) / of_int (total_count s d))))
              (domain_stats s))
     \<and> domain_stats s1 = domain_stats s
     \<and> total_count s1 = total_count s
     \<and> (set (map fst (domain_stats s)) \<subseteq> set (map fst (domain_totals s)) \<longrightarrow> s1 = s)"
proof -
  from log_availability_result [of "domain_stats s" "domain_totals s"]
  obtain totals1 where
    r: "log_availability (domain_stats s) (domain_totals s) =
       Inr (totals1,
            map (\<lambda>(d, st). format_line d
                   (if lookup0 (domain_totals s) d = 0 then 0
                    else py_round (of_int (100 * up st) / of_int (lookup0 (domain_totals s) d))))
              (domain_stats s))"
    and l: "lookup0 totals1 = lookup0 (domain_totals s)"
    and k: "set (map fst (domain_stats s)) \<subseteq> set (map fst (domain_totals s)) \<longrightarrow>
            totals1 = domain_totals s"
    by blast
  show ?thesis
    using r l k by (simp add: report_def total_count_lookup0 cong: if_cong)
qed

lemma report_recorded:
  "report (recorded ps) =
     Inr (recorded ps,
          map (\<lambda>d. format_line d (availability_percent (recorded ps) d))
            (map fst (domain_stats (recorded ps))))"
proof -
  let ?s = "recorded ps"
  have keys: "set (map fst (domain_stats ?s)) \<subseteq> set (map fst (domain_totals ?s))"
    and dist: "distinct (map fst (domain_stats ?s))"
    using keys_stats_recorded [of ps] by simp_all
  have up: "up st = up_count ?s d" if "(d, st) \<in> set (domain_stats ?s)" for d st
    using that dist by (simp add: up_count_def)
  have lines: "map (\<lambda>(d, st). format_line d
                   (if total_count ?s d = 0 then 0
                    else py_round (of_int (100 * up st) / of_int (total_count ?s d))))
              (domain_stats ?s)
        = map (\<lambda>d. format_line d (availability_percent ?s d)) (map fst (domain_stats ?s))"
    using up by (auto simp: availability_percent_def)
  from report_result [of ?s] keys lines show ?thesis by auto
qed

section \<open>The loop records one outcome per endpoint, in order\<close>

lemma recorded_record_all: "recorded ps = record_all initial ps"
  by (simp add: recorded_def)

lemma record_all_append: "record_all (record_all s ps) qs = record_all s (ps @ qs)"
  by (simp add: record_all_def)

lemma for_endpoints_Inr:
  "for_endpoints netloc envs i endpoints s = Inr s1 \<Longrightarrow>
   \<exists>ps. length ps = length endpoints
      \<and> (\<forall>j < length endpoints.
            probe_endpoint netloc (envs (i + j)) (endpoints ! j) = Inr (ps ! j))
      \<and> s1 = record_all s ps"
proof (induction endpoints arbitrary: i s)
  case Nil
  then show ?case by (simp add: record_all_def)
next
  case (Cons endpoint rest)
  from Cons.prems obtain domain status where
    p: "probe_endpoint netloc (envs i) endpoint = Inr (domain, status)"
    and r: "for_endpoints netloc envs (Suc i) rest (record_outcome domain status s) = Inr s1"
    by (auto split: sum.splits)
  from Cons.IH [OF r] obtain ps where
    len: "length ps = length rest"
    and each: "\<forall>j < length rest.
            probe_endpoint netloc (envs (Suc i + j)) (rest ! j) = Inr (ps ! j)"
    and s1: "s1 = record_all (record_outcome domain status s) ps"
    by blast
  let ?ps = "(domain, status) # ps"
  have "length ?ps = length (endpoint # rest)" using len by simp
  moreover have "\<forall>j < length (endpoint # rest).
            probe_endpoint netloc (envs (i + j)) ((endpoint # rest) ! j) = Inr (?ps ! j)"
  proof (intro allI impI)
    fix j assume "j < length (endpoint # rest)"
    then show "probe_endpoint netloc (envs (i + j)) ((endpoint # rest) ! j) = Inr (?ps ! j)"
      using p each by (cases j) auto
  qed
  moreover have "s1 = record_all s ?ps" using s1 by (simp add: record_all_def)
  ultimately show ?case by blast
qed


lemma cycle_Inr:
  "cycle netloc envs endpoints s = Inr (s1, printed) \<Longrightarrow>
   \<exists>ps. length ps = length endpoints
      \<and> (\<forall>j < length endpoints. probe_endpoint netloc (envs j) (endpoints ! j) = Inr (ps ! j))
      \<and> for_endpoints netloc envs 0 endpoints s = Inr (record_all s ps)
      \<and> report (record_all s ps) = Inr (s1, printed)"
  using for_endpoints_Inr [of netloc envs 0 endpoints s]
  by (auto simp: cycle_def split: sum.splits)

lemma monitor_reachable:
  "monitor_endpoints netloc world endpoints n = Inr (s, out) \<Longrightarrow>
   \<exists>ps. s = recorded ps \<and> length ps = n * length endpoints"
proof (induction n arbitrary: s out)
  case 0
  then show ?case by (auto simp: recorded_Nil)
next
  case (Suc n)
  from Suc.prems obtain s0 out0 printed where
    m: "monitor_endpoints netloc world endpoints n = Inr (s0, out0)"
    and c: "cycle netloc (world n) endpoints s0 = Inr (s, printed)"
    by (auto split: sum.splits)
  from Suc.IH [OF m] obtain ps0 where s0: "s0 = recorded ps0"
    and len0: "length ps0 = n * length endpoints" by blast
  from cycle_Inr [OF c] obtain ps where len: "length ps = length endpoints"
    and rep: "report (record_all s0 ps) = Inr (s, printed)" by blast
  have "record_all s0 ps = recorded (ps0 @ ps)"
    by (simp add: s0 recorded_record_all record_all_append)
  with rep report_recorded [of "ps0 @ ps"] have "s = recorded (ps0 @ ps)" by simp
  moreover have "length (ps0 @ ps) = Suc n * length endpoints" using len len0 by simp
  ultimately show ?case by blast
qed

section \<open>The prober\<close>

lemma request_function_str:
  "request_function (PStr m) =
     Inr (case map_of method_switcher (upper m) of Some f \<Rightarrow> f | None \<Rightarrow> GET)"
  by (simp add: request_function_def py_upper_def)


text \<open>
  Claim C1. For a method that selects a request function (any string), the probe is
  \<open>UP\<close> exactly when the session answers with a status code in \<open>[200, 300)\<close> and the
  measured latency, \<open>(clock1 - clock0) * 1000\<close> milliseconds, is strictly below 500.
  A response that misses either condition is \<open>DOWN\<close>, and so is a transport error
  raised as \<^verbatim>\<open>requests.RequestException\<close>.
\<close>
theorem send_request_classification:
  assumes "request_function method = Inr f"
  shows "((send_request env method url headers body = Inr ''UP'') =
            (\<exists>c. respond env \<lparr>req_verb = f, req_url = url, req_headers = headers,
                               req_data = body, req_timeout = 1\<rparr> = Response c
                 \<and> 200 \<le> c \<and> c < 300 \<and> (clock1 env - clock0 env) * 1000 < 500))
       \<and> (\<forall>c. respond env \<lparr>req_verb = f, req_url = url, req_headers = headers,
                              req_data = body, req_timeout = 1\<rparr> = Response c
               \<and> \<not> (200 \<le> c \<and> c < 300 \<and> (clock1 env - clock0 env) * 1000 < 500)
             \<longrightarrow> send_request env method url headers body = Inr ''DOWN'')
       \<and> (respond env \<lparr>req_verb = f, req_url = url, req_headers = headers,
                         req_data = body, req_timeout = 1\<rparr> = Raise RequestException
             \<longrightarrow> send_request env method url headers body = Inr ''DOWN'')"
  using assms
  by (auto simp: send_request_def latency_def except_RequestException_def
      split: transport_result.splits)

theorem send_request_classification_witness:
  "request_function (PStr ''get'') = Inr GET
   \<and> send_request fast_ok (PStr ''get'') (PStr ''http://a/'') (PDict []) PNone = Inr ''UP''
   \<and> send_request slow_ok (PStr ''get'') (PStr ''http://a/'') (PDict []) PNone = Inr ''DOWN''
   \<and> send_request not_found (PStr ''get'') (PStr ''http://a/'') (PDict []) PNone = Inr ''DOWN''
   \<and> send_request refused (PStr ''get'') (PStr ''http://a/'') (PDict []) PNone = Inr ''DOWN''"
proof -
  have f: "request_function (PStr ''get'') = Inr GET"
    by (simp add: request_function_str upper_def upper_char_def special_upper_def method_switcher_def)
  show ?thesis
    using f
      send_request_classification [OF f, of fast_ok "PStr ''http://a/''" "PDict []" PNone]
      send_request_classification [OF f, of slow_ok "PStr ''http://a/''" "PDict []" PNone]
      send_request_classification [OF f, of not_found "PStr ''http://a/''" "PDict []" PNone]
      send_request_classification [OF f, of refused "PStr ''http://a/''" "PDict []" PNone]
    by (simp add: fast_ok_def slow_ok_def not_found_def refused_def)
qed



















section \<open>The counters\<close>

lemma record_all_snoc:
  "record_all s (ps @ [(domain, status)]) = record_outcome domain status (record_all s ps)"
  by (simp add: record_all_def)

lemma total_count_record_all:
  "total_count (record_all s ps) d = total_count s d + int (length (filter (\<lambda>p. fst p = d) ps))"
proof (induction ps rule: rev_induct)
  case Nil
  show ?case by (simp add: record_all_def)
next
  case (snoc p ps)
  obtain domain status where p: "p = (domain, status)" by (cases p)
  show ?case using snoc by (simp add: p record_all_snoc total_count_record)
qed

lemma up_count_record_all:
  "up_count (record_all s ps) d =
     up_count s d + int (length (filter (\<lambda>p. fst p = d \<and> snd p = ''UP'') ps))"
proof (induction ps rule: rev_induct)
  case Nil
  show ?case by (simp add: record_all_def)
next
  case (snoc p ps)
  obtain domain status where p: "p = (domain, status)" by (cases p)
  show ?case using snoc by (simp add: p record_all_snoc up_count_record)
qed

lemma monitor_Suc:
  "monitor_endpoints netloc world endpoints (Suc n) = Inr (s1, out1) \<Longrightarrow>
   \<exists>s0 out0 ps. monitor_endpoints netloc world endpoints n = Inr (s0, out0)
     \<and> length ps = length endpoints \<and> s1 = record_all s0 ps"
proof -
  assume a: "monitor_endpoints netloc world endpoints (Suc n) = Inr (s1, out1)"
  then obtain s0 out0 printed where
    m: "monitor_endpoints netloc world endpoints n = Inr (s0, out0)"
    and c: "cycle netloc (world n) endpoints s0 = Inr (s1, printed)"
    by (auto split: sum.splits)
  from monitor_reachable [OF m] obtain ps0 where s0: "s0 = recorded ps0" by blast
  from cycle_Inr [OF c] obtain ps where len: "length ps = length endpoints"
    and rep: "report (record_all s0 ps) = Inr (s1, printed)" by blast
  have "record_all s0 ps = recorded (ps0 @ ps)"
    by (simp add: s0 recorded_record_all record_all_append)
  with rep report_recorded [of "ps0 @ ps"] have "s1 = record_all s0 ps" by simp
  with m len show ?thesis by blast
qed

lemma up_le_total_recorded:
  "0 \<le> up_count (recorded ps) d \<and> up_count (recorded ps) d \<le> total_count (recorded ps) d"
proof -
  have "length (filter (\<lambda>p. fst p = d \<and> snd p = ''UP'') ps)
          \<le> length (filter (\<lambda>p. fst p = d) ps)"
  proof (induction ps)
    case Nil
    show ?case by simp
  next
    case (Cons p ps)
    then show ?case by auto
  qed
  then show ?thesis by (simp add: up_count_recorded total_count_recorded)
qed


section \<open>A run of one pass over one endpoint\<close>

lemma netloc_a: "urlparse_netloc (PStr ''http://a/x'') = Inr ''a''"
  by (simp add: netloc_eval)

lemma check_a_up: "check_endpoint fast_ok [(''url'', PStr ''http://a/x'')] = Inr ''UP''"
  by (simp add: check_endpoint_def dict_get_def send_request_def request_function_def
      py_upper_def upper_def upper_char_def special_upper_def method_switcher_def fast_ok_def latency_def)

lemma probe_a_up:
  "probe_endpoint urlparse_netloc fast_ok [(''url'', PStr ''http://a/x'')] = Inr (''a'', ''UP'')"
  by (simp add: probe_endpoint_def dict_item_def check_a_up netloc_a)

lemma for_endpoints_a:
  "for_endpoints urlparse_netloc (\<lambda>i. fast_ok) 0 [[(''url'', PStr ''http://a/x'')]] initial
     = Inr (recorded [(''a'', ''UP'')])"
  by (simp add: probe_a_up recorded_def record_all_def)

lemma keys_a: "map fst (domain_stats (recorded [(''a'', ''UP'')])) = [''a'']"
  by (simp add: recorded_def record_all_def keys_stats_record initial_def)

lemma percent_a: "availability_percent (recorded [(''a'', ''UP'')]) ''a'' = 100"
  by (simp add: availability_percent_def total_count_recorded up_count_recorded py_round_def)

lemma line_a: "format_line ''a'' 100 = ''a has 100% availability percentage''"
  by (simp add: format_line_def str_int_def str_nat.simps)

lemma cycle_a:
  "cycle urlparse_netloc (\<lambda>i. fast_ok) [[(''url'', PStr ''http://a/x'')]] initial
     = Inr (recorded [(''a'', ''UP'')], [''a has 100% availability percentage''])"
  by (simp add: cycle_def for_endpoints_a report_recorded percent_a keys_a line_a
      del: for_endpoints.simps)

lemma monitor_a:
  "monitor_endpoints urlparse_netloc (\<lambda>c i. fast_ok) [[(''url'', PStr ''http://a/x'')]] (Suc 0)
     = Inr (recorded [(''a'', ''UP'')], [''a has 100% availability percentage''])"
  by (simp add: cycle_a)

text \<open>
  Claim C3. Recording an outcome adds exactly 1 to the total of its domain, whatever the
  outcome, and 1 to the up counter exactly when the outcome is \<open>UP\<close>; no other domain
  changes. After a sequence of recorded probes the total of a domain is the number of
  probes recorded for it, and \<open>0 \<le> upCount \<le> totalCount\<close>. From one pass of the loop
  to the next no counter goes down, and the state is again one reached by recording only.
\<close>
theorem recording_counts:
  "total_count (record_outcome domain status s) d =
      total_count s d + (if d = domain then 1 else 0)
   \<and> up_count (record_outcome domain status s) d =
      up_count s d + (if d = domain \<and> status = ''UP'' then 1 else 0)
   \<and> total_count (recorded ps) d = int (length (filter (\<lambda>p. fst p = d) ps))
   \<and> 0 \<le> up_count (recorded ps) d
   \<and> up_count (recorded ps) d \<le> total_count (recorded ps) d
   \<and> (monitor_endpoints netloc world endpoints n = Inr (s0, out0)
        \<and> monitor_endpoints netloc world endpoints (Suc n) = Inr (s1, out1) \<longrightarrow>
          total_count s0 d \<le> total_count s1 d \<and> up_count s0 d \<le> up_count s1 d
          \<and> (\<exists>qs. s1 = recorded qs \<and> length qs = Suc n * length endpoints))"
proof -
  have step: "total_count s0 d \<le> total_count s1 d \<and> up_count s0 d \<le> up_count s1 d
          \<and> (\<exists>qs. s1 = recorded qs \<and> length qs = Suc n * length endpoints)"
    if m0: "monitor_endpoints netloc world endpoints n = Inr (s0, out0)"
      and m1: "monitor_endpoints netloc world endpoints (Suc n) = Inr (s1, out1)"
  proof -
    from monitor_Suc [OF m1] m0 obtain ps where s1: "s1 = record_all s0 ps" by auto
    have "total_count s0 d \<le> total_count s1 d"
      by (simp add: s1 total_count_record_all)
    moreover have "up_count s0 d \<le> up_count s1 d"
      by (simp add: s1 up_count_record_all)
    ultimately show ?thesis using monitor_reachable [OF m1] by blast
  qed
  have rec: "total_count (record_outcome domain status s) d =
      total_count s d + (if d = domain then 1 else 0)
   \<and> up_count (record_outcome domain status s) d =
      up_count s d + (if d = domain \<and> status = ''UP'' then 1 else 0)"
    by (simp add: total_count_record up_count_record)
  from rec total_count_recorded [of ps d] up_le_total_recorded [of ps d] step
  show ?thesis by blast
qed

theorem recording_counts_witness:
  "monitor_endpoints urlparse_netloc (\<lambda>c i. fast_ok) [[(''url'', PStr ''http://a/x'')]] 0
     = Inr (initial, [])
   \<and> monitor_endpoints urlparse_netloc (\<lambda>c i. fast_ok) [[(''url'', PStr ''http://a/x'')]] (Suc 0)
     = Inr (recorded [(''a'', ''UP'')], [''a has 100% availability percentage''])
   \<and> total_count initial ''a'' \<le> total_count (recorded [(''a'', ''UP'')]) ''a''
   \<and> total_count (recorded [(''a'', ''UP'')]) ''a'' = 1"
proof -
  let ?eps = "[[(''url'', PStr ''http://a/x'')]]"
  have m0: "monitor_endpoints urlparse_netloc (\<lambda>c i. fast_ok) ?eps 0 = Inr (initial, [])"
    by simp
  show ?thesis
    using m0 monitor_a
      recording_counts [of "''a''" "''UP''" initial "''a''" "[(''a'', ''UP'')]"
        urlparse_netloc "\<lambda>c i. fast_ok" ?eps 0 initial "[]" "recorded [(''a'', ''UP'')]"
        "[''a has 100% availability percentage'']"]
    by (simp del: monitor_endpoints.simps)
qed

section \<open>Invariants of the aggregation state\<close>

lemma sum_counts_recorded:
  "up_count (recorded ps) d + down_count (recorded ps) d = total_count (recorded ps) d"
proof (induction ps rule: rev_induct)
  case Nil
  show ?case by (simp add: recorded_Nil counts_initial)
next
  case (snoc p ps)
  obtain domain status where p: "p = (domain, status)" by (cases p)
  show ?case using snoc
    by (auto simp: p recorded_snoc total_count_record up_count_record down_count_record)
qed

lemma total_pos_recorded:
  assumes "d \<in> set (map fst (domain_stats (recorded ps)))"
  shows "1 \<le> total_count (recorded ps) d"
proof -
  from assms keys_stats_recorded [of ps] have "d \<in> fst ` set ps" by simp
  then obtain p where "p \<in> set ps" "fst p = d" by auto
  then have "filter (\<lambda>p. fst p = d) ps \<noteq> []" by (auto simp: filter_empty_conv)
  then show ?thesis
    by (cases "filter (\<lambda>p. fst p = d) ps") (simp_all add: total_count_recorded)
qed

text \<open>
  Claim C10. In every state reached by recording, and so in every state of the monitor
  loop, \<open>upCount + downCount = totalCount\<close> for every domain; \<^verbatim>\<open>domain_stats\<close> and
  \<^verbatim>\<open>domain_totals\<close> hold the same keys, in the same order and without repetition; and every
  domain the report iterates over has a total of at least 1, so the report never takes
  the branch for a total of 0.
\<close>
theorem counters_consistent:
  "up_count (recorded ps) d + down_count (recorded ps) d = total_count (recorded ps) d
   \<and> map fst (domain_stats (recorded ps)) = map fst (domain_totals (recorded ps))
   \<and> distinct (map fst (domain_stats (recorded ps)))
   \<and> (\<forall>k \<in> set (map fst (domain_stats (recorded ps))). 1 \<le> total_count (recorded ps) k)
   \<and> (monitor_endpoints netloc world endpoints n = Inr (s, out) \<longrightarrow>
         (\<exists>qs. s = recorded qs \<and> length qs = n * length endpoints))"
proof -
  have m: "monitor_endpoints netloc world endpoints n = Inr (s, out) \<longrightarrow>
         (\<exists>qs. s = recorded qs \<and> length qs = n * length endpoints)"
    using monitor_reachable by blast
  from sum_counts_recorded [of ps d] keys_stats_recorded [of ps] total_pos_recorded [of _ ps] m
  show ?thesis by simp
qed

theorem counters_consistent_witness:
  "total_count (recorded [(''a'', ''UP'')]) ''a'' = 1
   \<and> up_count (recorded [(''a'', ''UP'')]) ''a'' = 1
   \<and> down_count (recorded [(''a'', ''UP'')]) ''a'' = 0
   \<and> map fst (domain_totals (recorded [(''a'', ''UP'')])) = [''a'']
   \<and> (\<exists>qs. recorded [(''a'', ''UP'')] = recorded qs \<and> length qs = Suc 0 * length [[(''url'', PStr ''http://a/x'')]])"
  using monitor_a keys_a
    counters_consistent [of "[(''a'', ''UP'')]" "''a''" urlparse_netloc "\<lambda>c i. fast_ok"
      "[[(''url'', PStr ''http://a/x'')]]" "Suc 0" "recorded [(''a'', ''UP'')]"
      "[''a has 100% availability percentage'']"]
  by (simp add: up_count_recorded total_count_recorded del: monitor_endpoints.simps)

text \<open>
  Claim C8. Printing the report returns the aggregation state it was given: in every state
  reached by recording, and so after every pass of the monitor loop, the state after the
  report is the state before it. In any state at all the report raises nothing, leaves
  \<^verbatim>\<open>domain_stats\<close> as it is and leaves every up, down and total count as it is; the
  \<^verbatim>\<open>defaultdict\<close> read of \<^verbatim>\<open>domain_totals\<close> inserts nothing when the keys of
  \<^verbatim>\<open>domain_stats\<close> are keys of \<^verbatim>\<open>domain_totals\<close>.
\<close>
theorem report_leaves_counters:
  "(\<exists>printed. report (recorded ps) = Inr (recorded ps, printed))
   \<and> (\<exists>s1 printed. report s = Inr (s1, printed)
         \<and> domain_stats s1 = domain_stats s
         \<and> (\<forall>d. up_count s1 d = up_count s d \<and> down_count s1 d = down_count s d
                \<and> total_count s1 d = total_count s d)
         \<and> (set (map fst (domain_stats s)) \<subseteq> set (map fst (domain_totals s)) \<longrightarrow> s1 = s))
   \<and> (monitor_endpoints netloc world endpoints n = Inr (s0, out) \<longrightarrow>
         (\<exists>printed. report s0 = Inr (s0, printed)))"
proof -
  have a: "\<exists>printed. report (recorded ps) = Inr (recorded ps, printed)"
    by (simp add: report_recorded)
  from report_result [of s] obtain s1 printed where
    r: "report s = Inr (s1, printed)" and st: "domain_stats s1 = domain_stats s"
    and tc: "total_count s1 = total_count s"
    and k: "set (map fst (domain_stats s)) \<subseteq> set (map fst (domain_totals s)) \<longrightarrow> s1 = s"
    by blast
  have b: "\<exists>s1 printed. report s = Inr (s1, printed)
         \<and> domain_stats s1 = domain_stats s
         \<and> (\<forall>d. up_count s1 d = up_count s d \<and> down_count s1 d = down_count s d
                \<and> total_count s1 d = total_count s d)
         \<and> (set (map fst (domain_stats s)) \<subseteq> set (map fst (domain_totals s)) \<longrightarrow> s1 = s)"
    using r st tc k by (auto simp: up_count_def down_count_def)
  have c: "monitor_endpoints netloc world endpoints n = Inr (s0, out) \<longrightarrow>
         (\<exists>printed. report s0 = Inr (s0, printed))"
  proof
    assume "monitor_endpoints netloc world endpoints n = Inr (s0, out)"
    from monitor_reachable [OF this] obtain qs where "s0 = recorded qs" by blast
    then show "\<exists>printed. report s0 = Inr (s0, printed)" by (simp add: report_recorded)
  qed
  from a b c show ?thesis by blast
qed

theorem report_leaves_counters_witness:
  "report (recorded [(''a'', ''UP'')])
     = Inr (recorded [(''a'', ''UP'')], [''a has 100% availability percentage''])"
  using monitor_a
    report_leaves_counters [of "[(''a'', ''UP'')]" "recorded [(''a'', ''UP'')]" urlparse_netloc
      "\<lambda>c i. fast_ok" "[[(''url'', PStr ''http://a/x'')]]" "Suc 0" "recorded [(''a'', ''UP'')]"
      "[''a has 100% availability percentage'']"]
  by (simp add: report_recorded keys_a percent_a line_a del: monitor_endpoints.simps)

section \<open>The percentages printed\<close>

lemma py_round_nearest:
  "\<bar>of_int (py_round x) - x\<bar> \<le> 1 / 2
   \<and> (\<bar>of_int (py_round x) - x\<bar> = 1 / 2 \<longrightarrow> even (py_round x))"
proof -
  define f where "f = \<lfloor>x\<rfloor>"
  define d where "d = x - of_int f"
  have d0: "0 \<le> d" and d1: "d < 1"
    unfolding d_def f_def by linarith+
  have x: "x = of_int f + d" by (simp add: d_def)
  consider "d < 1 / 2" | "1 / 2 < d" | "d = 1 / 2" "even f" | "d = 1 / 2" "odd f"
    by fastforce
  then show ?thesis
  proof cases
    case 1
    then have "py_round x = f" by (simp add: py_round_def f_def d_def Let_def)
    with 1 d0 show ?thesis by (simp add: x)
  next
    case 2
    then have "py_round x = f + 1" by (simp add: py_round_def f_def d_def Let_def)
    with 2 d1 show ?thesis by (simp add: x)
  next
    case 3
    then have "py_round x = f" by (simp add: py_round_def f_def d_def Let_def)
    with 3 show ?thesis by (simp add: x)
  next
    case 4
    then have "py_round x = f + 1" by (simp add: py_round_def f_def d_def Let_def)
    with 4 show ?thesis by (simp add: x)
  qed
qed

lemma three_probes:
  "total_count (recorded [(k, ''UP''), (k, ''DOWN''), (k, ''UP'')]) k = 3
   \<and> up_count (recorded [(k, ''UP''), (k, ''DOWN''), (k, ''UP'')]) k = 2
   \<and> availability_percent (recorded [(k, ''UP''), (k, ''DOWN''), (k, ''UP'')]) k = 67
   \<and> map fst (domain_stats (recorded [(k, ''UP''), (k, ''DOWN''), (k, ''UP'')])) = [k]"
proof -
  let ?s = "recorded [(k, ''UP''), (k, ''DOWN''), (k, ''UP'')]"
  have t: "total_count ?s k = 3" by (simp add: total_count_recorded)
  have u: "up_count ?s k = 2" by (simp add: up_count_recorded)
  have r: "py_round (200 / 3) = 67" by (simp add: py_round_def)
  have a: "availability_percent ?s k = 67" by (simp add: availability_percent_def t u r)
  have ks: "map fst (domain_stats ?s) = [k]"
    by (simp add: recorded_def record_all_def keys_stats_record initial_def)
  from t u a ks show ?thesis by simp
qed

lemma line_67: "format_line k 67 = k @ '' has 67% availability percentage''"
  by (simp add: format_line_def str_int_def str_nat.simps)

text \<open>
  Claim C2. In any state the report raises nothing, in particular no
  \<^verbatim>\<open>ZeroDivisionError\<close>, and prints for each domain \<open>round(100 * upCount / totalCount)\<close>
  when the total is not 0 and 0 when it is. In a state reached by recording the counts it
  uses are the up count and the total count of the domain. \<open>round\<close> is Python's: an
  integer nearest to its argument, the even one at a tie. After the three outcomes
  \<open>UP\<close>, \<open>DOWN\<close>, \<open>UP\<close> a domain has a total of 3, an up count of 2 and is reported at 67.
\<close>
theorem availability_report:
  "(\<exists>s1. report s =
       Inr (s1, map (\<lambda>(d, st). format_line d
                      (if total_count s d = 0 then 0
                       else py_round (of_int (100 * up st) / of_int (total_count s d))))
                  (domain_stats s)))
   \<and> report (recorded ps) =
       Inr (recorded ps,
            map (\<lambda>d. format_line d
                   (if total_count (recorded ps) d = 0 then 0
                    else py_round (of_int (100 * up_count (recorded ps) d)
                                     / of_int (total_count (recorded ps) d))))
              (map fst (domain_stats (recorded ps))))
   \<and> \<bar>of_int (py_round x) - x\<bar> \<le> 1 / 2
   \<and> (\<bar>of_int (py_round x) - x\<bar> = 1 / 2 \<longrightarrow> even (py_round x))
   \<and> total_count (recorded [(k, ''UP''), (k, ''DOWN''), (k, ''UP'')]) k = 3
   \<and> up_count (recorded [(k, ''UP''), (k, ''DOWN''), (k, ''UP'')]) k = 2
   \<and> report (recorded [(k, ''UP''), (k, ''DOWN''), (k, ''UP'')]) =
       Inr (recorded [(k, ''UP''), (k, ''DOWN''), (k, ''UP'')],
            [k @ '' has 67% availability percentage''])"
proof -
  have a: "\<exists>s1. report s =
       Inr (s1, map (\<lambda>(d, st). format_line d
                      (if total_count s d = 0 then 0
                       else py_round (of_int (100 * up st) / of_int (total_count s d))))
                  (domain_stats s))"
    using report_result [of s] by blast
  have b: "report (recorded ps) =
       Inr (recorded ps,
            map (\<lambda>d. format_line d
                   (if total_count (recorded ps) d = 0 then 0
                    else py_round (of_int (100 * up_count (recorded ps) d)
                                     / of_int (total_count (recorded ps) d))))
              (map fst (domain_stats (recorded ps))))"
    using report_recorded [of ps] by (simp add: availability_percent_def cong: if_cong)
  have c: "report (recorded [(k, ''UP''), (k, ''DOWN''), (k, ''UP'')]) =
       Inr (recorded [(k, ''UP''), (k, ''DOWN''), (k, ''UP'')],
            [k @ '' has 67% availability percentage''])"
    using three_probes [of k] by (simp add: report_recorded line_67)
  from a b c py_round_nearest [of x] three_probes [of k] show ?thesis by blast
qed

theorem availability_report_witness:
  "py_round (25 / 2) = 12
   \<and> report (recorded [(''a'', ''UP'')])
       = Inr (recorded [(''a'', ''UP'')], [''a has 100% availability percentage''])
   \<and> report (recorded [(''a'', ''UP''), (''a'', ''DOWN''), (''a'', ''UP'')]) =
       Inr (recorded [(''a'', ''UP''), (''a'', ''DOWN''), (''a'', ''UP'')],
            [''a has 67% availability percentage''])"
proof -
  have r: "py_round (25 / 2) = 12" by (simp add: py_round_def)
  have t: "total_count (recorded [(''a'', ''UP'')]) ''a'' = 1"
    and u: "up_count (recorded [(''a'', ''UP'')]) ''a'' = 1"
    by (simp_all add: total_count_recorded up_count_recorded)
  have h: "py_round 100 = 100" by (simp add: py_round_def)
  show ?thesis
    using r availability_report [of "recorded [(''a'', ''UP'')]" "[(''a'', ''UP'')]" "25 / 2" "''a''"]
    by (simp add: keys_a t u h line_a)
qed

section \<open>Domain keys\<close>














section \<open>One pass of the loop\<close>

text \<open>
  Claim C7. A pass of the loop that reaches the report has probed every endpoint: the
  state the report is computed from is the state before the pass with the outcomes of
  all endpoints recorded, one per endpoint, in the order of the endpoint list. A pass in
  which a probe raises prints no report. When the state before the pass was reached by
  recording \<open>qs\<close>, the report has one line per domain seen in \<open>qs\<close> or in this pass, each
  domain once.
\<close>
theorem cycle_order_and_report:
  "(for_endpoints netloc envs 0 endpoints s = Inl e \<longrightarrow> cycle netloc envs endpoints s = Inl e)
   \<and> (cycle netloc envs endpoints s = Inr (s1, printed) \<longrightarrow>
        (\<exists>ps. length ps = length endpoints
           \<and> (\<forall>j < length endpoints.
                 probe_endpoint netloc (envs j) (endpoints ! j) = Inr (ps ! j))
           \<and> for_endpoints netloc envs 0 endpoints s = Inr (record_all s ps)
           \<and> report (record_all s ps) = Inr (s1, printed)
           \<and> (\<forall>qs. s = recorded qs \<longrightarrow>
                 s1 = recorded (qs @ ps)
                 \<and> printed = map (\<lambda>d. format_line d (availability_percent s1 d))
                               (map fst (domain_stats s1))
                 \<and> distinct (map fst (domain_stats s1))
                 \<and> set (map fst (domain_stats s1)) = fst ` set qs \<union> fst ` set ps)))"
proof -
  have a: "for_endpoints netloc envs 0 endpoints s = Inl e \<longrightarrow>
           cycle netloc envs endpoints s = Inl e"
    by (simp add: cycle_def)
  have b: "cycle netloc envs endpoints s = Inr (s1, printed) \<longrightarrow>
        (\<exists>ps. length ps = length endpoints
           \<and> (\<forall>j < length endpoints.
                 probe_endpoint netloc (envs j) (endpoints ! j) = Inr (ps ! j))
           \<and> for_endpoints netloc envs 0 endpoints s = Inr (record_all s ps)
           \<and> report (record_all s ps) = Inr (s1, printed)
           \<and> (\<forall>qs. s = recorded qs \<longrightarrow>
                 s1 = recorded (qs @ ps)
                 \<and> printed = map (\<lambda>d. format_line d (availability_percent s1 d))
                               (map fst (domain_stats s1))
                 \<and> distinct (map fst (domain_stats s1))
                 \<and> set (map fst (domain_stats s1)) = fst ` set qs \<union> fst ` set ps))"
  proof
    assume c: "cycle netloc envs endpoints s = Inr (s1, printed)"
    from cycle_Inr [OF c] obtain ps where len: "length ps = length endpoints"
      and each: "\<forall>j < length endpoints.
                 probe_endpoint netloc (envs j) (endpoints ! j) = Inr (ps ! j)"
      and fe: "for_endpoints netloc envs 0 endpoints s = Inr (record_all s ps)"
      and rep: "report (record_all s ps) = Inr (s1, printed)"
      by blast
    have hist: "s1 = recorded (qs @ ps)
                 \<and> printed = map (\<lambda>d. format_line d (availability_percent s1 d))
                               (map fst (domain_stats s1))
                 \<and> distinct (map fst (domain_stats s1))
                 \<and> set (map fst (domain_stats s1)) = fst ` set qs \<union> fst ` set ps"
      if s: "s = recorded qs" for qs
    proof -
      have r: "record_all s ps = recorded (qs @ ps)"
        by (simp add: s recorded_record_all record_all_append)
      from rep have "report (recorded (qs @ ps)) = Inr (s1, printed)"
        by (simp only: r)
      then have "Inr (recorded (qs @ ps),
                   map (\<lambda>d. format_line d (availability_percent (recorded (qs @ ps)) d))
                     (map fst (domain_stats (recorded (qs @ ps)))))
                 = (Inr (s1, printed) :: py_exception + aggregator \<times> string list)"
        by (simp only: report_recorded)
      then have s1: "s1 = recorded (qs @ ps)"
        and pr: "printed = map (\<lambda>d. format_line d (availability_percent (recorded (qs @ ps)) d))
                               (map fst (domain_stats (recorded (qs @ ps))))"
        by blast+
      from keys_stats_recorded [of "qs @ ps"] s1 pr show ?thesis
        by (simp add: image_Un)
    qed
    from len each fe rep hist show "\<exists>ps. length ps = length endpoints
           \<and> (\<forall>j < length endpoints.
                 probe_endpoint netloc (envs j) (endpoints ! j) = Inr (ps ! j))
           \<and> for_endpoints netloc envs 0 endpoints s = Inr (record_all s ps)
           \<and> report (record_all s ps) = Inr (s1, printed)
           \<and> (\<forall>qs. s = recorded qs \<longrightarrow>
                 s1 = recorded (qs @ ps)
                 \<and> printed = map (\<lambda>d. format_line d (availability_percent s1 d))
                               (map fst (domain_stats s1))
                 \<and> distinct (map fst (domain_stats s1))
                 \<and> set (map fst (domain_stats s1)) = fst ` set qs \<union> fst ` set ps)"
      by blast
  qed
  from a b show ?thesis by blast
qed

theorem cycle_order_and_report_witness:
  "cycle urlparse_netloc (\<lambda>i. fast_ok) [[(''url'', PStr ''http://a/x'')]] initial
     = Inr (recorded [(''a'', ''UP'')], [''a has 100% availability percentage''])
   \<and> for_endpoints urlparse_netloc (\<lambda>i. fast_ok) 0 [[(''url'', PStr ''http://a/x'')]] initial
     = Inr (record_all initial [(''a'', ''UP'')])"
  using cycle_a for_endpoints_a
    cycle_order_and_report [of urlparse_netloc "\<lambda>i. fast_ok" "[[(''url'', PStr ''http://a/x'')]]"
      initial KeyError "recorded [(''a'', ''UP'')]" "[''a has 100% availability percentage'']"]
  by (simp add: recorded_def del: for_endpoints.simps)


section \<open>Exceptions that leave the loop\<close>










end
